theory Spec2Isabelle
  imports Main "HOL-Library.Char_ord" "HOL-Library.List_Lexorder" "HOL-Library.Multiset"
    "HOL-Library.AList"
begin

section \<open>Artifact manifests and their synchronisation (wandb/apis/artifacts.py)\<close>

text \<open>
  A shallow embedding of \<^verbatim>\<open>src/wandb/apis/artifacts.py\<close>. Python strings are
  \<open>string\<close> (lists of 8-bit characters, read as code points below 256), a raised
  exception is the \<open>Inl\<close> branch of a sum, a \<^verbatim>\<open>dict\<close> is an association list in
  insertion order (\<open>AList.update\<close> for \<^verbatim>\<open>d[k] = v\<close>, \<open>AList.delete\<close> for
  \<^verbatim>\<open>d.pop(k)\<close>), and the operating system, the JSON parser, the file hash of
  \<^verbatim>\<open>wandb.util\<close> and the remote service are parameters.
\<close>

subsection \<open>Exceptions\<close>

text \<open>
  The exception classes the module can raise, each with its message. \<open>IOError\<close> is
  what \<^verbatim>\<open>open\<close> and \<^verbatim>\<open>util.md5_file\<close> raise on an unreadable file,
  \<open>JSONDecodeError\<close> what \<^verbatim>\<open>json.load\<close> raises on malformed text.
\<close>

datatype error =
    ValueError string
  | Exception string
  | TypeError string
  | AttributeError string
  | KeyError string
  | IOError string
  | JSONDecodeError

text \<open>The raise sites of the module, under the names the specification gives them.\<close>

definition DuplicateNameError :: error where
  "DuplicateNameError =
     ValueError ''Duplicate file name found in artifact file list. Pass a dictionary instead.''"

definition InvalidPathError :: error where
  "InvalidPathError =
     ValueError ''paths must be a list, dictionary, or valid file or directory path.''"

definition NoPathsError :: error where
  "NoPathsError = ValueError ''At least one valid path must be specified.''"

definition ARTIFACT_METADATA_FILENAME :: string where
  "ARTIFACT_METADATA_FILENAME = ''artifact-metadata.json''"

definition AmbiguousMetadataError :: error where
  "AmbiguousMetadataError =
     ValueError (''may not specify metadata argument if paths contains '' @
                 ARTIFACT_METADATA_FILENAME)"

definition UnexpectedStateError :: error where
  "UnexpectedStateError = Exception ''Server artifact not in PENDING state''"

definition NotSavedError :: error where
  "NotSavedError = ValueError ''Must call save first''"

subsection \<open>JSON documents and \<^verbatim>\<open>json.dump\<close>\<close>

text \<open>
  A Python float is either finite, identified with its \<^verbatim>\<open>repr\<close> text (which
  \<^verbatim>\<open>json\<close> writes as it is), or one of the three non-finite values. Object keys are
  strings, as in every document read from a file.
\<close>

datatype pyfloat = Finite string | NaN | PosInf | NegInf

datatype json =
    JNull
  | JBool bool
  | JInt int
  | JFloat pyfloat
  | JStr string
  | JList "json list"
  | JDict "(string \<times> json) list"

record json_opts =
  sort_keys :: bool
  allow_nan :: bool
  indent :: "nat option"

definition hex_digit :: "nat \<Rightarrow> char" where
  "hex_digit n = ''0123456789abcdef'' ! (n mod 16)"

text \<open>
  \<^verbatim>\<open>py_encode_basestring_ascii\<close>: backslash and double quote are escaped, every
  character outside space..tilde becomes its short escape or a four-digit
  \<^verbatim>\<open>\uXXXX\<close>.
\<close>

definition escape_char :: "char \<Rightarrow> string" where
  "escape_char c =
     (if c = CHR 0x5C then [CHR 0x5C, CHR 0x5C]
      else if c = CHR 0x22 then [CHR 0x5C, CHR 0x22]
      else if c = CHR 0x08 then [CHR 0x5C, CHR ''b'']
      else if c = CHR 0x0C then [CHR 0x5C, CHR ''f'']
      else if c = CHR 0x0A then [CHR 0x5C, CHR ''n'']
      else if c = CHR 0x0D then [CHR 0x5C, CHR ''r'']
      else if c = CHR 0x09 then [CHR 0x5C, CHR ''t'']
      else if (of_char c :: nat) < 0x20 \<or> 0x7E < (of_char c :: nat)
        then [CHR 0x5C, CHR ''u'', CHR ''0'', CHR ''0'',
              hex_digit (of_char c div 16), hex_digit (of_char c)]
      else [c])"

definition encode_basestring_ascii :: "string \<Rightarrow> string" where
  "encode_basestring_ascii s = [CHR 0x22] @ concat (map escape_char s) @ [CHR 0x22]"

fun str_nat :: "nat \<Rightarrow> string" where
  "str_nat n =
     (if n < 10 then [''0123456789'' ! n]
      else str_nat (n div 10) @ [''0123456789'' ! (n mod 10)])"

definition str_int :: "int \<Rightarrow> string" where
  "str_int i = (if i < 0 then ''-'' @ str_nat (nat (- i)) else str_nat (nat i))"

definition float_repr :: "pyfloat \<Rightarrow> string" where
  "float_repr f = (case f of Finite r \<Rightarrow> r | NaN \<Rightarrow> ''nan'' | PosInf \<Rightarrow> ''inf''
                   | NegInf \<Rightarrow> ''-inf'')"

definition SerializationError :: "pyfloat \<Rightarrow> error" where
  "SerializationError f =
     ValueError (''Out of range float values are not JSON compliant: '' @ float_repr f)"

definition floatstr :: "json_opts \<Rightarrow> pyfloat \<Rightarrow> error + string" where
  "floatstr opts f =
     (case f of
        Finite r \<Rightarrow> Inr r
      | _ \<Rightarrow> if \<not> allow_nan opts then Inl (SerializationError f)
             else Inr (case f of NaN \<Rightarrow> ''NaN'' | PosInf \<Rightarrow> ''Infinity''
                       | _ \<Rightarrow> ''-Infinity''))"

definition newline_indent :: "json_opts \<Rightarrow> nat \<Rightarrow> string" where
  "newline_indent opts lvl =
     (case indent opts of None \<Rightarrow> [] | Some n \<Rightarrow> CHR 0x0A # replicate (n * lvl) CHR '' '')"

definition item_separator :: "json_opts \<Rightarrow> string" where
  "item_separator opts = (case indent opts of None \<Rightarrow> '', '' | Some _ \<Rightarrow> '','')"

definition key_separator :: string where
  "key_separator = '': ''"

text \<open>The encoder stops at the first value it cannot write: the first error wins.\<close>

fun collect :: "('e + 'a) list \<Rightarrow> 'e + 'a list" where
  "collect [] = Inr []"
| "collect (Inl e # _) = Inl e"
| "collect (Inr x # rs) = (case collect rs of Inl e \<Rightarrow> Inl e | Inr xs \<Rightarrow> Inr (x # xs))"

fun join :: "string \<Rightarrow> string list \<Rightarrow> string" where
  "join sep [] = []"
| "join sep [x] = x"
| "join sep (x # y # ys) = x @ sep @ join sep (y # ys)"

definition dict_items :: "json_opts \<Rightarrow> (string \<times> 'v) list \<Rightarrow> (string \<times> 'v) list" where
  "dict_items opts kvs = (if sort_keys opts then sort_key fst kvs else kvs)"

text \<open>
  \<^verbatim>\<open>_make_iterencode\<close> of the standard library, the chunks concatenated: the
  second argument is \<^verbatim>\<open>_current_indent_level\<close>.
\<close>

function iterencode :: "json_opts \<Rightarrow> nat \<Rightarrow> json \<Rightarrow> error + string" where
  "iterencode opts lvl JNull = Inr ''null''"
| "iterencode opts lvl (JBool b) = Inr (if b then ''true'' else ''false'')"
| "iterencode opts lvl (JInt i) = Inr (str_int i)"
| "iterencode opts lvl (JFloat f) = floatstr opts f"
| "iterencode opts lvl (JStr s) = Inr (encode_basestring_ascii s)"
| "iterencode opts lvl (JList xs) =
     (if xs = [] then Inr ''[]''
      else case collect (map (iterencode opts (Suc lvl)) xs) of
             Inl e \<Rightarrow> Inl e
           | Inr chunks \<Rightarrow>
               Inr (''['' @ newline_indent opts (Suc lvl)
                    @ join (item_separator opts @ newline_indent opts (Suc lvl)) chunks
                    @ newline_indent opts lvl @ '']''))"
| "iterencode opts lvl (JDict kvs) =
     (if kvs = [] then Inr ''{}''
      else case collect (map (\<lambda>kv. case iterencode opts (Suc lvl) (snd kv) of
                                      Inl e \<Rightarrow> Inl e
                                    | Inr s \<Rightarrow> Inr (encode_basestring_ascii (fst kv)
                                                    @ key_separator @ s))
                             (dict_items opts kvs)) of
             Inl e \<Rightarrow> Inl e
           | Inr chunks \<Rightarrow>
               Inr (''{'' @ newline_indent opts (Suc lvl)
                    @ join (item_separator opts @ newline_indent opts (Suc lvl)) chunks
                    @ newline_indent opts lvl @ ''}''))"
  by pat_completeness auto
termination
proof (relation "measure (\<lambda>(opts, lvl, j). size j)")
  show "wf (measure (\<lambda>(opts, lvl, j). size j))" by simp
next
  fix opts :: json_opts and lvl :: nat and xs :: "json list" and x :: json
  assume "x \<in> set xs"
  then have "size x < Suc (size_list size xs)"
    by (induction xs) auto
  then show "((opts, Suc lvl, x), (opts, lvl, JList xs)) \<in> measure (\<lambda>(opts, lvl, j). size j)"
    by simp
next
  fix opts :: json_opts and lvl :: nat and kvs :: "(string \<times> json) list"
    and kv :: "string \<times> json"
  assume "kv \<in> set (dict_items opts kvs)"
  then have "kv \<in> set kvs" by (simp add: dict_items_def split: if_splits)
  then have "size (snd kv) < Suc (size_list (size_prod (\<lambda>_. 0) size) kvs)"
    by (induction kvs) auto
  then show "((opts, Suc lvl, snd kv), (opts, lvl, JDict kvs))
               \<in> measure (\<lambda>(opts, lvl, j). size j)"
    by simp
qed

definition json_dump_opts :: json_opts where
  "json_dump_opts = \<lparr>sort_keys = True, allow_nan = False, indent = Some 4\<rparr>"

definition json_dumps_opts :: json_opts where
  "json_dumps_opts = \<lparr>sort_keys = False, allow_nan = True, indent = None\<rparr>"

text \<open>
  \<^verbatim>\<open>ArtifactMetadata.dump\<close>: \<^verbatim>\<open>json.dump(self._metadata, fp, sort_keys=True,
  allow_nan=False, indent=4)\<close>; the result is the text written to \<^verbatim>\<open>fp\<close>.
\<close>

definition ArtifactMetadata_dump :: "json \<Rightarrow> error + string" where
  "ArtifactMetadata_dump metadata = iterencode json_dump_opts 0 metadata"

text \<open>\<^verbatim>\<open>json.dumps(obj)\<close> with the default options.\<close>

definition json_dumps :: "json \<Rightarrow> error + string" where
  "json_dumps obj = iterencode json_dumps_opts 0 obj"

subsection \<open>The environment\<close>

text \<open>
  What the module takes from outside: the filesystem calls of \<^verbatim>\<open>os\<close> and
  \<^verbatim>\<open>os.path\<close> that look at the disk, the content of files (\<open>None\<close> for a file that
  cannot be read), the parser behind \<^verbatim>\<open>json.load\<close>, the hash that
  \<^verbatim>\<open>util.md5_file\<close> applies to the bytes of a file, and the digest that
  \<^verbatim>\<open>artifact_manifest.ArtifactManifestV1\<close> computes from the entries it is given.
\<close>

record LocalArtifactEntry =
  path :: string
  hash :: string
  local_path :: "string option"

record env =
  isdir :: "string \<Rightarrow> bool"
  isfile :: "string \<Rightarrow> bool"
  walk :: "string \<Rightarrow> (string \<times> string list \<times> string list) list"
  relpath :: "string \<Rightarrow> string \<Rightarrow> string"
  abspath :: "string \<Rightarrow> string"
  read_file :: "string \<Rightarrow> string option"
  md5 :: "string \<Rightarrow> string"
  json_loads :: "string \<Rightarrow> json option"
  manifest_digest :: "LocalArtifactEntry list \<Rightarrow> string"

text \<open>\<^verbatim>\<open>posixpath.basename\<close>, \<^verbatim>\<open>posixpath.dirname\<close> and \<^verbatim>\<open>posixpath.join\<close>.\<close>

definition basename :: "string \<Rightarrow> string" where
  "basename p = rev (takeWhile (\<lambda>c. c \<noteq> CHR ''/'') (rev p))"

definition dirname :: "string \<Rightarrow> string" where
  "dirname p =
     (let head = rev (dropWhile (\<lambda>c. c \<noteq> CHR ''/'') (rev p))
      in if head \<noteq> [] \<and> head \<noteq> replicate (length head) CHR ''/''
         then rev (dropWhile (\<lambda>c. c = CHR ''/'') (rev head))
         else head)"

definition path_join :: "string \<Rightarrow> string \<Rightarrow> string" where
  "path_join a b =
     (if b \<noteq> [] \<and> hd b = CHR ''/'' then b
      else if a = [] \<or> last a = CHR ''/'' then a @ b
      else a @ ''/'' @ b)"

text \<open>\<^verbatim>\<open>hash_file\<close>: \<^verbatim>\<open>util.md5_file(path)\<close>.\<close>

definition hash_file :: "env \<Rightarrow> string \<Rightarrow> error + string" where
  "hash_file e p = (case read_file e p of None \<Rightarrow> Inl (IOError p) | Some bytes \<Rightarrow> Inr (md5 e bytes))"

subsection \<open>ArtifactMetadata\<close>

text \<open>
  An \<^verbatim>\<open>ArtifactMetadata\<close> object holds one document, so it is the document.
  \<^verbatim>\<open>from_file\<close> opens and parses the file.
\<close>

definition ArtifactMetadata_from_file :: "env \<Rightarrow> string \<Rightarrow> error + json" where
  "ArtifactMetadata_from_file e p =
     (case read_file e p of
        None \<Rightarrow> Inl (IOError p)
      | Some text \<Rightarrow> (case json_loads e text of None \<Rightarrow> Inl JSONDecodeError | Some j \<Rightarrow> Inr j))"

text \<open>
  \<^verbatim>\<open>digest\<close> dumps the document into a fresh temporary file and hashes that file:
  the hash of the dumped text.
\<close>

definition ArtifactMetadata_digest :: "env \<Rightarrow> json \<Rightarrow> error + string" where
  "ArtifactMetadata_digest e metadata =
     (case ArtifactMetadata_dump metadata of Inl err \<Rightarrow> Inl err | Inr text \<Rightarrow> Inr (md5 e text))"

subsection \<open>\<^verbatim>\<open>user_paths_to_path_specs\<close>\<close>

datatype paths = PathList "string list" | PathDict "(string \<times> string) list" | PathSingle string

text \<open>The loop over a list: the accumulator is \<^verbatim>\<open>path_specs\<close>.\<close>

fun list_path_specs :: "(string \<times> string) list \<Rightarrow> string list \<Rightarrow> error + (string \<times> string) list" where
  "list_path_specs path_specs [] = Inr path_specs"
| "list_path_specs path_specs (p # rest) =
     (if basename p \<in> set (map fst path_specs) then Inl DuplicateNameError
      else list_path_specs (AList.update (basename p) p path_specs) rest)"

text \<open>The two nested loops over \<^verbatim>\<open>os.walk(path, followlinks=True)\<close>.\<close>

definition walk_path_specs :: "env \<Rightarrow> string \<Rightarrow> (string \<times> string) list" where
  "walk_path_specs e p =
     foldl (\<lambda>path_specs (dirpath, _, filenames).
              foldl (\<lambda>path_specs fname.
                       let local_path = path_join dirpath fname;
                           artifact_path = relpath e local_path p
                       in AList.update artifact_path local_path path_specs)
                    path_specs filenames)
           [] (walk e p)"

definition user_paths_to_path_specs :: "env \<Rightarrow> paths \<Rightarrow> error + (string \<times> string) list" where
  "user_paths_to_path_specs e ps =
     (case (case ps of
              PathList xs \<Rightarrow> list_path_specs [] xs
            | PathDict d \<Rightarrow> Inr d
            | PathSingle p \<Rightarrow>
                if isdir e p then Inr (walk_path_specs e p)
                else if isfile e p then Inr (AList.update (basename p) p [])
                else Inl InvalidPathError) of
        Inl err \<Rightarrow> Inl err
      | Inr path_specs \<Rightarrow>
          if length path_specs = 0 then Inl NoPathsError else Inr path_specs)"

subsection \<open>LocalArtifactManifestV1\<close>

record LocalArtifactManifestV1 =
  m_path_specs :: "(string \<times> string) list"
  m_metadata :: "json option"
  m_local_entries :: "LocalArtifactEntry list"
  m_digest :: string

text \<open>
  The metadata of the constructor: the argument when it is not \<^verbatim>\<open>None\<close> (JSON
  \<open>null\<close> is Python's \<^verbatim>\<open>None\<close>), and the file under the reserved name when the
  path specs have one, which is popped out of them.
\<close>

definition resolve_metadata ::
  "env \<Rightarrow> (string \<times> string) list \<Rightarrow> json \<Rightarrow> error + ((string \<times> string) list \<times> json option)" where
  "resolve_metadata e path_specs metadata =
     (let md = (if metadata \<noteq> JNull then Some metadata else None)
      in if ARTIFACT_METADATA_FILENAME \<in> set (map fst path_specs) then
           if md \<noteq> None then Inl AmbiguousMetadataError
           else case map_of path_specs ARTIFACT_METADATA_FILENAME of
                  None \<Rightarrow> Inl (KeyError ARTIFACT_METADATA_FILENAME)
                | Some lp \<Rightarrow>
                    (case ArtifactMetadata_from_file e lp of
                       Inl err \<Rightarrow> Inl err
                     | Inr d \<Rightarrow> Inr (AList.delete ARTIFACT_METADATA_FILENAME path_specs, Some d))
         else Inr (path_specs, md))"

definition metadata_entries :: "env \<Rightarrow> json option \<Rightarrow> error + LocalArtifactEntry list" where
  "metadata_entries e md =
     (case md of
        None \<Rightarrow> Inr []
      | Some d \<Rightarrow>
          (case ArtifactMetadata_digest e d of
             Inl err \<Rightarrow> Inl err
           | Inr h \<Rightarrow> Inr [\<lparr>path = ARTIFACT_METADATA_FILENAME, hash = h, local_path = None\<rparr>]))"

text \<open>The loop over \<^verbatim>\<open>self._path_specs.items()\<close>.\<close>

fun file_entries :: "env \<Rightarrow> (string \<times> string) list \<Rightarrow> error + LocalArtifactEntry list" where
  "file_entries e [] = Inr []"
| "file_entries e ((artifact_path, lp) # rest) =
     (case hash_file e lp of
        Inl err \<Rightarrow> Inl err
      | Inr h \<Rightarrow>
          (case file_entries e rest of
             Inl err \<Rightarrow> Inl err
           | Inr es \<Rightarrow> Inr (\<lparr>path = artifact_path, hash = h, local_path = Some (abspath e lp)\<rparr> # es)))"

definition LocalArtifactManifestV1_init :: "env \<Rightarrow> paths \<Rightarrow> json \<Rightarrow> error + LocalArtifactManifestV1" where
  "LocalArtifactManifestV1_init e ps metadata =
     (case user_paths_to_path_specs e ps of
        Inl err \<Rightarrow> Inl err
      | Inr path_specs0 \<Rightarrow>
     (case resolve_metadata e path_specs0 metadata of
        Inl err \<Rightarrow> Inl err
      | Inr (path_specs, md) \<Rightarrow>
     (case metadata_entries e md of
        Inl err \<Rightarrow> Inl err
      | Inr mes \<Rightarrow>
     (case file_entries e path_specs of
        Inl err \<Rightarrow> Inl err
      | Inr fes \<Rightarrow>
          Inr \<lparr>m_path_specs = path_specs, m_metadata = md, m_local_entries = mes @ fes,
               m_digest = manifest_digest e (mes @ fes)\<rparr>))))"

text \<open>The properties \<^verbatim>\<open>entries\<close>, \<^verbatim>\<open>digest\<close> and \<^verbatim>\<open>metadata\<close>.\<close>

definition entries :: "LocalArtifactManifestV1 \<Rightarrow> LocalArtifactEntry list" where
  "entries m = m_local_entries m"

definition digest :: "LocalArtifactManifestV1 \<Rightarrow> string" where
  "digest m = m_digest m"

definition metadata :: "LocalArtifactManifestV1 \<Rightarrow> json" where
  "metadata m = (case m_metadata m of None \<Rightarrow> JNull | Some d \<Rightarrow> d)"

text \<open>
  Modelled from the spec: the digest of \<^verbatim>\<open>artifact_manifest.ArtifactManifestV1\<close>,
  whose module is not among the sources. The specification (4.4, step 4, and the example
  of section 8) has it hash the entries sorted by logical path, each written as its
  logical path, a null character and its content hash, the pieces separated by null
  characters. The hash is the one of the environment.
\<close>

definition ArtifactManifestV1_digest :: "(string \<Rightarrow> string) \<Rightarrow> LocalArtifactEntry list \<Rightarrow> string" where
  "ArtifactManifestV1_digest h es =
     h (join [CHR 0x00] (concat (map (\<lambda>entry. [path entry, hash entry]) (sort_key path es))))"

subsection \<open>LocalArtifact: the coordinator\<close>

text \<open>
  The remote service is a state of type \<open>'r\<close> and the two calls the module makes on
  it; each returns the new state of the service with its answer. The record the service
  answers with is read by the module both as \<^verbatim>\<open>v['state']\<close> and as
  \<^verbatim>\<open>v.state\<close>; both are the field here.
\<close>

record ServerArtifact =
  sa_id :: string
  sa_state :: string

record 'r api =
  create_artifact :: "'r \<Rightarrow> string \<Rightarrow> 'r \<times> string"
  create_artifact_version :: "'r \<Rightarrow> string \<Rightarrow> string \<Rightarrow> string \<Rightarrow> bool \<Rightarrow> 'r \<times> ServerArtifact"

text \<open>
  The file pusher is the sequence of calls it has received. The second argument of
  \<^verbatim>\<open>file_changed\<close> is the local path of the entry or the temporary file the
  metadata was dumped into, given by its content.
\<close>

datatype file_source = LocalFile "string option" | MetadataTempFile string

datatype pusher_call =
    Named_temp_file
  | File_changed string file_source string
  | Commit_artifact string

record 'r LocalArtifact =
  api :: "'r api"
  remote :: 'r
  file_pusher :: "pusher_call list"
  is_user_created :: bool
  local_manifest :: LocalArtifactManifestV1
  server_artifact :: "ServerArtifact option"

definition LocalArtifact_init ::
  "env \<Rightarrow> 'r api \<Rightarrow> 'r \<Rightarrow> paths \<Rightarrow> json \<Rightarrow> pusher_call list option \<Rightarrow> bool \<Rightarrow> error + 'r LocalArtifact" where
  "LocalArtifact_init e a r ps md pusher user_created =
     (case LocalArtifactManifestV1_init e ps md of
        Inl err \<Rightarrow> Inl err
      | Inr m \<Rightarrow>
          Inr \<lparr>api = a, remote = r,
               file_pusher = (case pusher of None \<Rightarrow> [] | Some calls \<Rightarrow> calls),
               is_user_created = user_created, local_manifest = m, server_artifact = None\<rparr>)"

text \<open>
  The loop of \<^verbatim>\<open>save\<close> over the entries: the calls made on the file pusher so far,
  and the exception that ended the loop, if any.
\<close>

fun sync_entries ::
  "json option \<Rightarrow> string \<Rightarrow> pusher_call list \<Rightarrow> LocalArtifactEntry list
     \<Rightarrow> pusher_call list \<times> (error + unit)" where
  "sync_entries md vid calls [] = (calls, Inr ())"
| "sync_entries md vid calls (entry # rest) =
     (if path entry = ARTIFACT_METADATA_FILENAME then
        (case md of
           None \<Rightarrow> (calls @ [Named_temp_file],
                    Inl (AttributeError ''NoneType object has no attribute dump''))
         | Some d \<Rightarrow>
             (case ArtifactMetadata_dump d of
                Inl err \<Rightarrow> (calls @ [Named_temp_file], Inl err)
              | Inr text \<Rightarrow>
                  sync_entries md vid
                    (calls @ [Named_temp_file,
                              File_changed (path entry) (MetadataTempFile text) vid])
                    rest))
      else sync_entries md vid
             (calls @ [File_changed (path entry) (LocalFile (local_path entry)) vid]) rest)"

text \<open>
  \<^verbatim>\<open>save\<close>: the coordinator after the call (an exception leaves the assignments
  made before it in place), and the version returned or the exception raised.
\<close>

definition save :: "'r LocalArtifact \<Rightarrow> string \<Rightarrow> 'r LocalArtifact \<times> (error + ServerArtifact)" where
  "save self name =
     (case create_artifact (api self) (remote self) name of (r1, artifact_id) \<Rightarrow>
      (case json_dumps (metadata (local_manifest self)) of
         Inl err \<Rightarrow> (self\<lparr>remote := r1\<rparr>, Inl err)
       | Inr md_text \<Rightarrow>
      (case create_artifact_version (api self) r1 artifact_id (digest (local_manifest self))
              md_text (is_user_created self) of (r2, v) \<Rightarrow>
       let self1 = self\<lparr>remote := r2, server_artifact := Some v\<rparr>
       in if sa_state v = ''COMMITTED'' then (self1, Inr v)
          else if sa_state v \<noteq> ''PENDING'' then (self1, Inl UnexpectedStateError)
          else (case sync_entries (m_metadata (local_manifest self1)) (sa_id v)
                       (file_pusher self1) (entries (local_manifest self1)) of
                  (calls, Inl err) \<Rightarrow> (self1\<lparr>file_pusher := calls\<rparr>, Inl err)
                | (calls, Inr _) \<Rightarrow>
                    (self1\<lparr>file_pusher := calls @ [Commit_artifact (sa_id v)]\<rparr>, Inr v)))))"

text \<open>
  \<^verbatim>\<open>wait\<close>. The loop sleeps two seconds and tests the same field again; nothing in
  it changes the coordinator. Its result is the number of seconds slept, and \<open>None\<close>
  when it does not return.
\<close>

partial_function (option) wait_loop :: "'r LocalArtifact \<Rightarrow> nat \<Rightarrow> (error + nat) option" where
  "wait_loop self slept =
     (case server_artifact self of
        None \<Rightarrow> Some (Inl (AttributeError ''NoneType object has no attribute state''))
      | Some v \<Rightarrow>
          if sa_state v \<noteq> ''READY'' then wait_loop self (slept + 2) else Some (Inr slept))"

definition wait :: "'r LocalArtifact \<Rightarrow> (error + nat) option" where
  "wait self =
     (if server_artifact self = None then Some (Inl NotSavedError) else wait_loop self 0)"

subsection \<open>LocalArtifactRead\<close>

record LocalArtifactRead =
  artifact_dir :: string
  read_manifest :: LocalArtifactManifestV1

definition LocalArtifactRead_init :: "env \<Rightarrow> string \<Rightarrow> paths \<Rightarrow> error + LocalArtifactRead" where
  "LocalArtifactRead_init e name p =
     (case p of
        PathSingle s \<Rightarrow>
          (case (if isdir e s then Inr s
                 else if isfile e s then Inr (dirname s)
                 else Inl (ValueError ''path must be a local file or directory'')) of
             Inl err \<Rightarrow> Inl err
           | Inr d \<Rightarrow>
               (case LocalArtifactManifestV1_init e (PathSingle s) JNull of
                  Inl err \<Rightarrow> Inl err
                | Inr m \<Rightarrow> Inr \<lparr>artifact_dir = d, read_manifest = m\<rparr>))
      | _ \<Rightarrow> Inl (ValueError ''path must be a local file or directory''))"

text \<open>
  Python values as far as the \<^verbatim>\<open>digest\<close> property needs them: calling a value
  runs it when it is callable and raises \<^verbatim>\<open>TypeError\<close> when it is a string.
\<close>

datatype pyval = PyStr string | PyCallable "unit \<Rightarrow> pyval"

fun py_call :: "pyval \<Rightarrow> error + pyval" where
  "py_call (PyStr s) = Inl (TypeError ''str object is not callable'')"
| "py_call (PyCallable f) = Inr (f ())"

text \<open>
  The property \<^verbatim>\<open>LocalArtifactRead.digest\<close>:
  \<^verbatim>\<open>return self._local_manifest.digest()\<close>, where
  \<^verbatim>\<open>self._local_manifest.digest\<close> is the property above, a string.
\<close>

definition LocalArtifactRead_digest :: "LocalArtifactRead \<Rightarrow> error + pyval" where
  "LocalArtifactRead_digest self = py_call (PyStr (digest (read_manifest self)))"

subsection \<open>Notions the properties are stated with\<close>

text \<open>A document has a non-finite float when one occurs anywhere in it.\<close>

fun is_finite :: "pyfloat \<Rightarrow> bool" where
  "is_finite (Finite r) = True"
| "is_finite _ = False"

fun has_nonfinite :: "json \<Rightarrow> bool" where
  "has_nonfinite (JFloat f) = (\<not> is_finite f)"
| "has_nonfinite (JList xs) = (\<exists>x \<in> set xs. has_nonfinite x)"
| "has_nonfinite (JDict kvs) = (\<exists>kv \<in> set kvs. has_nonfinite (snd kv))"
| "has_nonfinite _ = False"

text \<open>
  Two values are the same logical document when they differ at most in the order in
  which the keys of their objects were inserted, at any depth: arrays agree position by
  position, objects have the same keys (each once, as in a \<^verbatim>\<open>dict\<close>) with the
  same document under each key.
\<close>

function (sequential) same_doc :: "json \<Rightarrow> json \<Rightarrow> bool" where
  "same_doc (JList xs) (JList ys) =
     (length xs = length ys \<and> (\<forall>(x, y) \<in> set (zip xs ys). same_doc x y))"
| "same_doc (JDict xs) (JDict ys) =
     (distinct (map fst xs) \<and> distinct (map fst ys) \<and> set (map fst xs) = set (map fst ys)
      \<and> (\<forall>(k, v) \<in> set xs. \<forall>(k', v') \<in> set ys. k = k' \<longrightarrow> same_doc v v'))"
| "same_doc a b = (a = b)"
  by pat_completeness auto
termination
proof (relation "measure (\<lambda>(a, b). size a)")
  show "wf (measure (\<lambda>(a, b). size a))" by simp
next
  fix xs ys :: "json list" and z :: "json \<times> json" and x y :: json
  assume "z \<in> set (zip xs ys)" and "(x, y) = z"
  then have "x \<in> set xs" by (auto dest: set_zip_leftD)
  then have "size x < Suc (size_list size xs)" by (induction xs) auto
  then show "((x, y), (JList xs, JList ys)) \<in> measure (\<lambda>(a, b). size a)" by simp
next
  fix xs ys :: "(string \<times> json) list" and kv kv' :: "string \<times> json" and k k' :: string
    and v v' :: json
  assume "kv \<in> set xs" and "(k, v) = kv"
  then have "(k, v) \<in> set xs" by simp
  then have "size v < Suc (size_list (size_prod (\<lambda>_. 0) size) xs)" by (induction xs) auto
  then show "((v, v'), (JDict xs, JDict ys)) \<in> measure (\<lambda>(a, b). size a)" by simp
qed

subsection \<open>A small world to run the definitions in\<close>

text \<open>
  A directory \<^verbatim>\<open>/data\<close> with two files and a metadata file, a toy hash, a parser
  that knows the one metadata text, and a remote that answers every version request
  with the same state.
\<close>

definition example_md5 :: "string \<Rightarrow> string" where
  "example_md5 bytes = ''md5:'' @ bytes"

definition example_env :: env where
  "example_env =
     \<lparr>isdir = (\<lambda>p. p = ''/data''),
      isfile = (\<lambda>p. p = ''/data/a.txt'' \<or> p = ''/data/b.txt''
                     \<or> p = ''/data/artifact-metadata.json'' \<or> p = ''/other/a.txt''),
      walk = (\<lambda>p. if p = ''/data'' then [(''/data'', [], [''a.txt'', ''b.txt''])] else []),
      relpath = (\<lambda>p start. drop (Suc (length start)) p),
      abspath = (\<lambda>p. p),
      read_file = map_of [(''/data/a.txt'', ''1''), (''/data/b.txt'', ''2''),
                          (''/other/a.txt'', ''3''),
                          (''/data/artifact-metadata.json'', ''meta'')],
      md5 = example_md5,
      json_loads = (\<lambda>t. if t = ''meta'' then Some (JDict [(''k'', JInt 1)]) else None),
      manifest_digest = ArtifactManifestV1_digest example_md5\<rparr>"

definition example_api :: "string \<Rightarrow> nat api" where
  "example_api st =
     \<lparr>create_artifact = (\<lambda>r name. (Suc r, ''artifact:'' @ name)),
      create_artifact_version = (\<lambda>r aid dg md uc. (Suc r, \<lparr>sa_id = ''v1'', sa_state = st\<rparr>))\<rparr>"

definition example_paths :: paths where
  "example_paths = PathDict [(''a.txt'', ''/data/a.txt''), (''b.txt'', ''/data/b.txt'')]"

definition example_artifact :: "string \<Rightarrow> error + nat LocalArtifact" where
  "example_artifact st =
     LocalArtifact_init example_env (example_api st) 0 example_paths JNull None False"

definition example_version :: "string \<Rightarrow> ServerArtifact" where
  "example_version st = \<lparr>sa_id = ''v1'', sa_state = st\<rparr>"

definition example_manifest :: LocalArtifactManifestV1 where
  "example_manifest =
     \<lparr>m_path_specs = [(''a.txt'', ''/data/a.txt''), (''b.txt'', ''/data/b.txt'')],
      m_metadata = None,
      m_local_entries =
        [\<lparr>path = ''a.txt'', hash = ''md5:1'', local_path = Some ''/data/a.txt''\<rparr>,
         \<lparr>path = ''b.txt'', hash = ''md5:2'', local_path = Some ''/data/b.txt''\<rparr>],
      m_digest = ArtifactManifestV1_digest example_md5
        [\<lparr>path = ''a.txt'', hash = ''md5:1'', local_path = Some ''/data/a.txt''\<rparr>,
         \<lparr>path = ''b.txt'', hash = ''md5:2'', local_path = Some ''/data/b.txt''\<rparr>]\<rparr>"

definition example_coordinator :: "string \<Rightarrow> nat LocalArtifact" where
  "example_coordinator st =
     \<lparr>api = example_api st, remote = 0, file_pusher = [], is_user_created = False,
      local_manifest = example_manifest, server_artifact = None\<rparr>"

definition example_paths_with_metadata :: paths where
  "example_paths_with_metadata =
     PathDict [(''artifact-metadata.json'', ''/data/artifact-metadata.json''),
               (''a.txt'', ''/data/a.txt'')]"

section \<open>Facts about the definitions\<close>

subsection \<open>The encoder\<close>

lemma collect_Inl_mem: "collect rs = Inl e \<Longrightarrow> Inl e \<in> set rs"
  by (induction rs rule: collect.induct) (auto split: sum.splits)

lemma collect_has_Inl: "Inl e \<in> set rs \<Longrightarrow> \<exists>e'. collect rs = Inl e'"
  by (induction rs rule: collect.induct) (auto split: sum.splits)

lemma floatstr_error:
  "floatstr opts f = Inl e \<Longrightarrow> \<not> is_finite f \<and> \<not> allow_nan opts \<and> e = SerializationError f"
  by (cases f) (auto simp: floatstr_def split: if_splits)

lemma iterencode_error:
  "iterencode opts lvl d = Inl e \<Longrightarrow>
     \<not> allow_nan opts \<and> (\<exists>f. \<not> is_finite f \<and> e = SerializationError f)"
proof (induction opts lvl d rule: iterencode.induct)
  case (4 opts lvl f)
  then show ?case by (auto dest: floatstr_error)
next
  case (6 opts lvl xs)
  from "6.prems" have ne: "xs \<noteq> []"
    and c: "collect (map (iterencode opts (Suc lvl)) xs) = Inl e"
    by (auto split: if_splits sum.splits)
  from collect_Inl_mem [OF c] obtain x where "x \<in> set xs" "iterencode opts (Suc lvl) x = Inl e"
    by auto
  with "6.IH" [OF ne] show ?case by blast
next
  case (7 opts lvl kvs)
  let ?f = "\<lambda>kv. case iterencode opts (Suc lvl) (snd kv) of
                    Inl e \<Rightarrow> Inl e
                  | Inr s \<Rightarrow> Inr (encode_basestring_ascii (fst kv) @ key_separator @ s)"
  from "7.prems" have ne: "kvs \<noteq> []"
    and c: "collect (map ?f (dict_items opts kvs)) = Inl e"
    by (auto split: if_splits sum.splits)
  from collect_Inl_mem [OF c] obtain kv where kv: "kv \<in> set (dict_items opts kvs)"
    and "?f kv = Inl e" by auto
  then have "iterencode opts (Suc lvl) (snd kv) = Inl e" by (auto split: sum.splits)
  with "7.IH" [OF ne kv] show ?case by blast
qed simp_all

lemma json_dumps_total: "\<exists>t. json_dumps d = Inr t"
proof (cases "json_dumps d")
  case (Inl e)
  then have "\<not> allow_nan json_dumps_opts"
    unfolding json_dumps_def by (blast dest: iterencode_error)
  then show ?thesis by (simp add: json_dumps_opts_def)
qed blast

lemma dump_error:
  "ArtifactMetadata_dump d = Inl e \<Longrightarrow> \<exists>f. \<not> is_finite f \<and> e = SerializationError f"
  unfolding ArtifactMetadata_dump_def by (blast dest: iterencode_error)

lemma map_eq_if_list_all2: "list_all2 (\<lambda>x y. f x = g y) xs ys \<Longrightarrow> map f xs = map g ys"
  by (induction rule: list_all2_induct) auto

lemma sort_key_fst_keys_eq:
  assumes dx: "distinct (map fst xs)" and dy: "distinct (map fst ys)"
    and s: "set (map fst xs) = set (map fst ys)"
  shows "map fst (sort_key fst xs) = map fst (sort_key fst ys)"
proof (rule sorted_distinct_set_unique)
  show "sorted (map fst (sort_key fst xs))" by simp
  show "sorted (map fst (sort_key fst ys))" by simp
  show "distinct (map fst (sort_key fst xs))" using dx by (simp add: distinct_map)
  show "distinct (map fst (sort_key fst ys))" using dy by (simp add: distinct_map)
  show "set (map fst (sort_key fst xs)) = set (map fst (sort_key fst ys))" using s by simp
qed

lemma sorted_items_related:
  assumes dx: "distinct (map fst xs)" and dy: "distinct (map fst ys)"
    and s: "set (map fst xs) = set (map fst ys)"
    and r: "\<And>k v v'. (k, v) \<in> set xs \<Longrightarrow> (k, v') \<in> set ys \<Longrightarrow> f (k, v) = g (k, v')"
  shows "map f (sort_key fst xs) = map g (sort_key fst ys)"
proof (rule map_eq_if_list_all2)
  let ?xs = "sort_key fst xs" and ?ys = "sort_key fst ys"
  have keys: "map fst ?xs = map fst ?ys" using dx dy s by (rule sort_key_fst_keys_eq)
  then have len: "length ?xs = length ?ys" by (metis length_map)
  show "list_all2 (\<lambda>x y. f x = g y) ?xs ?ys"
  proof (rule list_all2_all_nthI [OF len])
    fix n assume n: "n < length ?xs"
    obtain k v where a: "?xs ! n = (k, v)" by (cases "?xs ! n")
    obtain k' v' where b: "?ys ! n = (k', v')" by (cases "?ys ! n")
    have "fst (?xs ! n) = fst (?ys ! n)"
      using keys n len by (metis nth_map)
    then have kk: "k' = k" using a b by simp
    have "(k, v) \<in> set ?xs" using a n by (metis nth_mem)
    then have ina: "(k, v) \<in> set xs" by simp
    have "(k, v') \<in> set ?ys" using b n len kk by (metis nth_mem)
    then have inb: "(k, v') \<in> set ys" by simp
    show "f (?xs ! n) = g (?ys ! n)" using r [OF ina inb] a b kk by simp
  qed
qed

lemma iterencode_same_doc:
  "same_doc a b \<Longrightarrow> sort_keys opts \<Longrightarrow> iterencode opts lvl a = iterencode opts lvl b"
proof (induction a b arbitrary: lvl rule: same_doc.induct)
  case (1 xs ys)
  from "1.prems" have len: "length xs = length ys"
    and rel: "\<forall>(x, y) \<in> set (zip xs ys). same_doc x y" by simp_all
  have "list_all2 (\<lambda>x y. iterencode opts (Suc lvl) x = iterencode opts (Suc lvl) y) xs ys"
    unfolding list_all2_iff using len rel "1.IH" "1.prems"(2) by auto
  then have "map (iterencode opts (Suc lvl)) xs = map (iterencode opts (Suc lvl)) ys"
    by (rule map_eq_if_list_all2)
  moreover have "xs = [] \<longleftrightarrow> ys = []" using len by auto
  ultimately show ?case by simp
next
  case (2 xs ys)
  from "2.prems" have dx: "distinct (map fst xs)" and dy: "distinct (map fst ys)"
    and s: "set (map fst xs) = set (map fst ys)"
    and rel: "\<And>k v v'. (k, v) \<in> set xs \<Longrightarrow> (k, v') \<in> set ys \<Longrightarrow> same_doc v v'"
    by auto
  let ?f = "\<lambda>kv. case iterencode opts (Suc lvl) (snd kv) of
                    Inl e \<Rightarrow> Inl e
                  | Inr s \<Rightarrow> Inr (encode_basestring_ascii (fst kv) @ key_separator @ s)"
  have "map ?f (sort_key fst xs) = map ?f (sort_key fst ys)"
  proof (rule sorted_items_related [OF dx dy s])
    fix k v v' assume a: "(k, v) \<in> set xs" and b: "(k, v') \<in> set ys"
    have "iterencode opts (Suc lvl) v = iterencode opts (Suc lvl) v'"
      using "2.IH" [OF a refl b refl refl rel [OF a b] "2.prems"(2)] .
    then show "?f (k, v) = ?f (k, v')" by (simp split: sum.splits)
  qed
  moreover have "xs = [] \<longleftrightarrow> ys = []" using s by auto
  ultimately show ?case using "2.prems"(2) by (simp add: dict_items_def)
qed simp_all

lemma iterencode_nonfinite:
  "has_nonfinite d \<Longrightarrow> \<not> allow_nan opts \<Longrightarrow> \<exists>e. iterencode opts lvl d = Inl e"
proof (induction opts lvl d rule: iterencode.induct)
  case (4 opts lvl f)
  then show ?case by (cases f) (auto simp: floatstr_def)
next
  case (6 opts lvl xs)
  from "6.prems" obtain x where x: "x \<in> set xs" and nf: "has_nonfinite x" by auto
  then have ne: "xs \<noteq> []" by auto
  from "6.IH" [OF ne x nf "6.prems"(2)] obtain e where "iterencode opts (Suc lvl) x = Inl e" ..
  then have "Inl e \<in> set (map (iterencode opts (Suc lvl)) xs)" using x by force
  then obtain e' where "collect (map (iterencode opts (Suc lvl)) xs) = Inl e'"
    by (blast dest: collect_has_Inl)
  then show ?case using ne by simp
next
  case (7 opts lvl kvs)
  let ?f = "\<lambda>kv. case iterencode opts (Suc lvl) (snd kv) of
                    Inl e \<Rightarrow> Inl e
                  | Inr s \<Rightarrow> Inr (encode_basestring_ascii (fst kv) @ key_separator @ s)"
  from "7.prems" obtain kv where kv: "kv \<in> set kvs" and nf: "has_nonfinite (snd kv)" by auto
  then have ne: "kvs \<noteq> []" by auto
  have kv': "kv \<in> set (dict_items opts kvs)" using kv by (simp add: dict_items_def)
  from "7.IH" [OF ne kv' nf "7.prems"(2)] obtain e
    where "iterencode opts (Suc lvl) (snd kv) = Inl e" ..
  then have "?f kv = Inl e" by simp
  then have "Inl e \<in> set (map ?f (dict_items opts kvs))" using kv' by force
  then obtain e' where "collect (map ?f (dict_items opts kvs)) = Inl e'"
    by (blast dest: collect_has_Inl)
  then show ?case using ne by simp
qed simp_all

lemma example_dump_value:
  "ArtifactMetadata_dump (JDict [(''b'', JInt 1), (''a'', JNull)])
     = Inr (''{'' @ [CHR 0x0A] @ ''    '' @ [CHR 0x22] @ ''a'' @ [CHR 0x22] @ '': null,''
            @ [CHR 0x0A] @ ''    '' @ [CHR 0x22] @ ''b'' @ [CHR 0x22] @ '': 1''
            @ [CHR 0x0A] @ ''}'')"
  by code_simp

subsection \<open>Path specs, entries and the digest\<close>

lemma list_path_specs_duplicate:
  "\<not> distinct (map basename xs) \<or> (\<exists>x \<in> set xs. basename x \<in> set (map fst path_specs))
     \<Longrightarrow> list_path_specs path_specs xs = Inl DuplicateNameError"
proof (induction xs arbitrary: path_specs)
  case Nil
  then show ?case by simp
next
  case (Cons x xs)
  show ?case
  proof (cases "basename x \<in> set (map fst path_specs)")
    case True
    then show ?thesis by simp
  next
    case False
    have keys: "set (map fst (AList.update (basename x) x path_specs))
                  = insert (basename x) (set (map fst path_specs))"
      by (simp add: dom_update)
    from Cons.prems False
    have "\<not> distinct (map basename xs)
            \<or> (\<exists>y \<in> set xs. basename y \<in> set (map fst (AList.update (basename x) x path_specs)))"
      unfolding keys by auto
    from Cons.IH [OF this] False show ?thesis by simp
  qed
qed

lemma file_entries_Inr:
  "file_entries e ps = Inr es \<Longrightarrow>
     (\<forall>kv \<in> set ps. read_file e (snd kv) \<noteq> None)
     \<and> es = map (\<lambda>kv. \<lparr>path = fst kv, hash = md5 e (the (read_file e (snd kv))),
                         local_path = Some (abspath e (snd kv))\<rparr>) ps"
  by (induction e ps arbitrary: es rule: file_entries.induct)
     (auto simp: hash_file_def split: sum.splits option.splits)

lemma file_entries_readable:
  "\<forall>kv \<in> set ps. read_file e (snd kv) \<noteq> None \<Longrightarrow>
     file_entries e ps
       = Inr (map (\<lambda>kv. \<lparr>path = fst kv, hash = md5 e (the (read_file e (snd kv))),
                           local_path = Some (abspath e (snd kv))\<rparr>) ps)"
  by (induction e ps rule: file_entries.induct) (auto simp: hash_file_def)

lemma sort_key_permutation:
  assumes "mset xs = mset ys" and "distinct (map f xs)"
  shows "sort_key f xs = sort_key f ys"
proof (rule sort_key_inj_key_eq)
  show "mset xs = mset (sort_key f ys)" using assms(1) by simp
  show "inj_on f (set xs)" using assms(2) by (simp add: distinct_map)
  show "sorted (map f (sort_key f ys))" by simp
qed

lemma digest_permutation:
  assumes "mset es = mset es'" and "distinct (map path es)"
  shows "ArtifactManifestV1_digest h es = ArtifactManifestV1_digest h es'"
  using sort_key_permutation [OF assms] by (simp add: ArtifactManifestV1_digest_def)

lemma delete_mset:
  "mset d' = mset d \<Longrightarrow> mset (AList.delete k d') = mset (AList.delete k d)"
  by (simp add: AList.delete_eq)

lemma map_of_permutation:
  assumes "mset d' = mset d" and "distinct (map fst d)"
  shows "map_of d' = map_of d"
proof (rule map_of_inject_set [THEN iffD2])
  show "distinct (map fst d')"
    using assms by (metis mset_eq_imp_distinct_iff mset_map)
  show "distinct (map fst d)" by (rule assms(2))
  show "set d' = set d" using assms(1) by (rule mset_eq_setD)
qed

lemma resolve_metadata_permutation:
  assumes p: "mset d' = mset d" and dist: "distinct (map fst d)"
    and r: "resolve_metadata e d md = Inr (ps, mo)"
  shows "\<exists>ps'. resolve_metadata e d' md = Inr (ps', mo) \<and> mset ps' = mset ps"
proof -
  have keys: "set (map fst d') = set (map fst d)"
    using p by (metis mset_eq_setD mset_map)
  have look: "map_of d' = map_of d" using p dist by (rule map_of_permutation)
  show ?thesis
  proof (cases "ARTIFACT_METADATA_FILENAME \<in> set (map fst d)")
    case False
    with r keys p show ?thesis by (auto simp: resolve_metadata_def)
  next
    case True
    with r obtain lp doc where "md = JNull"
      and "map_of d ARTIFACT_METADATA_FILENAME = Some lp"
      and "ArtifactMetadata_from_file e lp = Inr doc"
      and "ps = AList.delete ARTIFACT_METADATA_FILENAME d" and "mo = Some doc"
      by (auto simp: resolve_metadata_def Let_def split: if_splits option.splits sum.splits)
    with True keys look delete_mset [OF p, of ARTIFACT_METADATA_FILENAME]
    show ?thesis by (simp add: resolve_metadata_def)
  qed
qed

lemma resolve_metadata_distinct:
  assumes dist: "distinct (map fst d)"
    and r: "resolve_metadata e d md = Inr (ps, mo)"
  shows "distinct (map fst ps)
         \<and> (mo \<noteq> None \<longrightarrow> ARTIFACT_METADATA_FILENAME \<notin> set (map fst ps))"
proof (cases "ARTIFACT_METADATA_FILENAME \<in> set (map fst d)")
  case False
  with r dist show ?thesis by (auto simp: resolve_metadata_def)
next
  case True
  with r have "ps = AList.delete ARTIFACT_METADATA_FILENAME d"
    by (auto simp: resolve_metadata_def Let_def split: if_splits option.splits sum.splits)
  moreover have "distinct (map fst (AList.delete ARTIFACT_METADATA_FILENAME d))"
    using dist by (rule distinct_delete)
  moreover have "ARTIFACT_METADATA_FILENAME
                   \<notin> set (map fst (AList.delete ARTIFACT_METADATA_FILENAME d))"
    by (simp add: delete_keys)
  ultimately show ?thesis by simp
qed

lemma example_metadata_manifest:
  "\<exists>m. LocalArtifactManifestV1_init example_env example_paths_with_metadata JNull = Inr m"
  by (simp add: LocalArtifactManifestV1_init_def user_paths_to_path_specs_def
      example_paths_with_metadata_def resolve_metadata_def ARTIFACT_METADATA_FILENAME_def
      ArtifactMetadata_from_file_def metadata_entries_def ArtifactMetadata_digest_def
      ArtifactMetadata_dump_def json_dump_opts_def dict_items_def
      hash_file_def example_env_def)

subsection \<open>The coordinator\<close>

lemma sync_entries_error:
  "sync_entries md vid calls es = (calls', Inl e) \<Longrightarrow> e \<noteq> UnexpectedStateError"
proof (induction md vid calls es rule: sync_entries.induct)
  case (1 md vid calls)
  then show ?case by simp
next
  case (2 md vid calls entry rest)
  show ?case
  proof (cases "path entry = ARTIFACT_METADATA_FILENAME")
    case False
    with 2 show ?thesis by simp
  next
    case True
    show ?thesis
    proof (cases md)
      case None
      with True "2.prems" show ?thesis by (auto simp: UnexpectedStateError_def)
    next
      case (Some d)
      show ?thesis
      proof (cases "ArtifactMetadata_dump d")
        case (Inl err)
        with True Some "2.prems" have "e = err" by simp
        with Inl show ?thesis
          by (auto dest!: dump_error simp: SerializationError_def UnexpectedStateError_def)
      next
        case (Inr t)
        with True Some "2.prems" "2.IH"(1) show ?thesis by simp
      qed
    qed
  qed
qed

lemma wait_loop_returns:
  "wait_loop self slept = Some r \<Longrightarrow>
     server_artifact self = None \<or> (\<exists>v. server_artifact self = Some v \<and> sa_state v = ''READY'')"
proof (erule wait_loop.raw_induct [rotated])
  fix w :: "'a LocalArtifact \<Rightarrow> nat \<Rightarrow> (error + nat) option" and c n y
  assume ih: "\<And>a b y. w a b = Some y \<Longrightarrow>
      server_artifact a = None \<or> (\<exists>v. server_artifact a = Some v \<and> sa_state v = ''READY'')"
    and body: "(case server_artifact c of
        None \<Rightarrow> Some (Inl (AttributeError ''NoneType object has no attribute state''))
      | Some v \<Rightarrow> if sa_state v \<noteq> ''READY'' then w c (n + 2) else Some (Inr n)) = Some y"
  show "server_artifact c = None \<or> (\<exists>v. server_artifact c = Some v \<and> sa_state v = ''READY'')"
  proof (cases "server_artifact c")
    case (Some v)
    show ?thesis
    proof (cases "sa_state v = ''READY''")
      case True with Some show ?thesis by simp
    next
      case False
      with Some body have "w c (n + 2) = Some y" by simp
      then show ?thesis by (rule ih)
    qed
  qed simp
qed

lemma wait_not_ready:
  assumes "server_artifact self = Some v" and "sa_state v \<noteq> ''READY''"
  shows "wait self = None"
proof (cases "wait self")
  case (Some r)
  with assms have "wait_loop self 0 = Some r" by (simp add: wait_def)
  from wait_loop_returns [OF this] assms show ?thesis by simp
qed simp

lemma wait_ready:
  assumes "server_artifact self = Some v" and "sa_state v = ''READY''"
  shows "wait self = Some (Inr 0)"
  using assms by (simp add: wait_def wait_loop.simps)

lemma save_success_state:
  assumes "save self name = (self', Inr v)"
  shows "server_artifact self' = Some v
         \<and> (sa_state v = ''COMMITTED'' \<or> sa_state v = ''PENDING'')"
  using assms
  by (auto simp: save_def Let_def split: prod.splits sum.splits if_splits)

lemma wait_after_successful_save:
  assumes "save self name = (self', Inr v)"
  shows "wait self' = None"
proof -
  from save_success_state [OF assms] have "server_artifact self' = Some v"
    and "sa_state v \<noteq> ''READY''" by auto
  then show ?thesis by (rule wait_not_ready)
qed

lemmas example_defs = example_coordinator_def example_api_def example_manifest_def
  example_version_def

lemma example_artifact_built: "example_artifact st = Inr (example_coordinator st)"
  by (simp add: example_artifact_def example_coordinator_def example_manifest_def
      LocalArtifact_init_def LocalArtifactManifestV1_init_def user_paths_to_path_specs_def
      example_paths_def resolve_metadata_def ARTIFACT_METADATA_FILENAME_def
      metadata_entries_def hash_file_def example_env_def example_md5_def)

lemma example_create_artifact:
  "create_artifact (api (example_coordinator st)) (remote (example_coordinator st)) ''run''
     = (Suc 0, ''artifact:run'')"
  by (simp add: example_defs)

lemma example_json_dumps:
  "json_dumps (metadata (local_manifest (example_coordinator st))) = Inr ''null''"
  by (simp add: example_defs metadata_def json_dumps_def)

lemma example_create_artifact_version:
  "create_artifact_version (api (example_coordinator st)) (Suc 0) ''artifact:run''
       (digest (local_manifest (example_coordinator st))) ''null''
       (is_user_created (example_coordinator st))
     = (Suc (Suc 0), example_version st)"
  by (simp add: example_defs)

lemma example_save_state:
  assumes "st \<noteq> ''COMMITTED''" and "st \<noteq> ''PENDING''"
  shows "save (example_coordinator st) ''run''
       = ((example_coordinator st)
            \<lparr>remote := Suc (Suc 0), server_artifact := Some (example_version st)\<rparr>,
          Inl UnexpectedStateError)"
  using assms by (simp add: save_def example_defs json_dumps_def metadata_def)

section \<open>The claims\<close>

text \<open>
  C1, as the specification has it: on a coordinator whose \<^verbatim>\<open>save\<close> has succeeded,
  \<^verbatim>\<open>wait\<close> polls the remote at a fixed interval and returns when the refreshed
  state is \<^verbatim>\<open>READY\<close>. The loop of the source sleeps and tests the version that
  \<^verbatim>\<open>save\<close> stored; it makes no call on the remote and assigns nothing. So after a
  \<^verbatim>\<open>save\<close> that the remote answered with \<^verbatim>\<open>PENDING\<close> and that returned that
  version, \<^verbatim>\<open>wait\<close> does not return, whatever the remote does later (and so
  after every \<^verbatim>\<open>save\<close> that returned a version, by
  \<open>wait_after_successful_save\<close>).
\<close>

theorem wait_after_save_never_returns:
  "example_artifact ''PENDING'' = Inr (example_coordinator ''PENDING'')
   \<and> snd (save (example_coordinator ''PENDING'') ''run'') = Inr (example_version ''PENDING'')
   \<and> server_artifact (fst (save (example_coordinator ''PENDING'') ''run''))
       = Some (example_version ''PENDING'')
   \<and> wait (fst (save (example_coordinator ''PENDING'') ''run'')) = None"
proof -
  have s: "save (example_coordinator ''PENDING'') ''run''
       = ((example_coordinator ''PENDING'')
            \<lparr>remote := Suc (Suc 0), server_artifact := Some (example_version ''PENDING''),
             file_pusher :=
               [File_changed ''a.txt'' (LocalFile (Some ''/data/a.txt'')) ''v1'',
                File_changed ''b.txt'' (LocalFile (Some ''/data/b.txt'')) ''v1'',
                Commit_artifact ''v1'']\<rparr>,
          Inr (example_version ''PENDING''))"
    by (simp add: save_def example_defs json_dumps_def metadata_def entries_def
        ARTIFACT_METADATA_FILENAME_def)
  have w: "wait (fst (save (example_coordinator ''PENDING'') ''run'')) = None"
    unfolding s by (rule wait_not_ready [where v = "example_version ''PENDING''"])
      (simp_all add: example_version_def)
  from s w example_artifact_built [of "''PENDING''"] show ?thesis by simp
qed

text \<open>
  C2: when the remote answers the creation call of \<^verbatim>\<open>save\<close> with a version in
  state \<^verbatim>\<open>COMMITTED\<close>, \<^verbatim>\<open>save\<close> returns that version at once; the file pusher
  has received no call (no \<^verbatim>\<open>file_changed\<close>, no \<^verbatim>\<open>commit_artifact\<close>), and
  the coordinator differs from the one before only in the remote's state and the version
  it holds.
\<close>

theorem save_committed_short_circuit:
  assumes ca: "create_artifact (api self) (remote self) name = (r1, artifact_id)"
    and md: "json_dumps (metadata (local_manifest self)) = Inr md_text"
    and cv: "create_artifact_version (api self) r1 artifact_id (digest (local_manifest self))
               md_text (is_user_created self) = (r2, v)"
    and st: "sa_state v = ''COMMITTED''"
  shows "save self name = (self\<lparr>remote := r2, server_artifact := Some v\<rparr>, Inr v)
         \<and> file_pusher (fst (save self name)) = file_pusher self"
  using ca md cv st by (simp add: save_def)

text \<open>The remote of the example answers \<^verbatim>\<open>COMMITTED\<close>.\<close>

theorem save_committed_short_circuit_witness:
  "create_artifact (api (example_coordinator ''COMMITTED''))
       (remote (example_coordinator ''COMMITTED'')) ''run'' = (Suc 0, ''artifact:run'')
   \<and> json_dumps (metadata (local_manifest (example_coordinator ''COMMITTED''))) = Inr ''null''
   \<and> create_artifact_version (api (example_coordinator ''COMMITTED'')) (Suc 0) ''artifact:run''
         (digest (local_manifest (example_coordinator ''COMMITTED''))) ''null''
         (is_user_created (example_coordinator ''COMMITTED''))
       = (Suc (Suc 0), example_version ''COMMITTED'')
   \<and> sa_state (example_version ''COMMITTED'') = ''COMMITTED''
   \<and> save (example_coordinator ''COMMITTED'') ''run''
       = ((example_coordinator ''COMMITTED'')
            \<lparr>remote := Suc (Suc 0), server_artifact := Some (example_version ''COMMITTED'')\<rparr>,
          Inr (example_version ''COMMITTED''))
   \<and> file_pusher (fst (save (example_coordinator ''COMMITTED'') ''run'')) = []"
proof -
  have st: "sa_state (example_version ''COMMITTED'') = ''COMMITTED''"
    by (simp add: example_version_def)
  have fp: "file_pusher (example_coordinator ''COMMITTED'') = []"
    by (simp add: example_coordinator_def)
  from save_committed_short_circuit
         [OF example_create_artifact example_json_dumps example_create_artifact_version st]
       example_create_artifact example_json_dumps example_create_artifact_version st fp
  show ?thesis by simp
qed

text \<open>
  C3: \<^verbatim>\<open>save\<close> raises the exception of an unexpected state exactly when the state
  the remote answered the creation call with is neither \<^verbatim>\<open>COMMITTED\<close> nor
  \<^verbatim>\<open>PENDING\<close>; the file pusher has then received no call.
\<close>

theorem save_unexpected_state:
  assumes ca: "create_artifact (api self) (remote self) name = (r1, artifact_id)"
    and md: "json_dumps (metadata (local_manifest self)) = Inr md_text"
    and cv: "create_artifact_version (api self) r1 artifact_id (digest (local_manifest self))
               md_text (is_user_created self) = (r2, v)"
  shows "(snd (save self name) = Inl UnexpectedStateError
            \<longleftrightarrow> sa_state v \<noteq> ''COMMITTED'' \<and> sa_state v \<noteq> ''PENDING'')
         \<and> (sa_state v \<noteq> ''COMMITTED'' \<and> sa_state v \<noteq> ''PENDING''
              \<longrightarrow> file_pusher (fst (save self name)) = file_pusher self)"
proof (cases "sa_state v = ''COMMITTED'' \<or> sa_state v \<noteq> ''PENDING''")
  case True
  with ca md cv show ?thesis by (auto simp: save_def)
next
  case False
  then have p: "sa_state v = ''PENDING''" by simp
  obtain calls res where s: "sync_entries (m_metadata (local_manifest self)) (sa_id v)
      (file_pusher self) (entries (local_manifest self)) = (calls, res)"
    by (cases "sync_entries (m_metadata (local_manifest self)) (sa_id v)
      (file_pusher self) (entries (local_manifest self))")
  have "snd (save self name) \<noteq> Inl UnexpectedStateError"
  proof (cases res)
    case (Inl e)
    with s have "e \<noteq> UnexpectedStateError" by (blast dest: sync_entries_error)
    with ca md cv p s Inl show ?thesis by (simp add: save_def)
  next
    case (Inr u)
    with ca md cv p s show ?thesis by (simp add: save_def)
  qed
  with p show ?thesis by simp
qed

text \<open>The remote of the example answers \<^verbatim>\<open>READY\<close>.\<close>

theorem save_unexpected_state_witness:
  "create_artifact (api (example_coordinator ''READY''))
       (remote (example_coordinator ''READY'')) ''run'' = (Suc 0, ''artifact:run'')
   \<and> json_dumps (metadata (local_manifest (example_coordinator ''READY''))) = Inr ''null''
   \<and> create_artifact_version (api (example_coordinator ''READY'')) (Suc 0) ''artifact:run''
         (digest (local_manifest (example_coordinator ''READY''))) ''null''
         (is_user_created (example_coordinator ''READY''))
       = (Suc (Suc 0), example_version ''READY'')
   \<and> sa_state (example_version ''READY'') \<noteq> ''COMMITTED''
   \<and> sa_state (example_version ''READY'') \<noteq> ''PENDING''
   \<and> snd (save (example_coordinator ''READY'') ''run'') = Inl UnexpectedStateError
   \<and> file_pusher (fst (save (example_coordinator ''READY'') ''run'')) = []"
proof -
  have st: "sa_state (example_version ''READY'') \<noteq> ''COMMITTED''"
    "sa_state (example_version ''READY'') \<noteq> ''PENDING''"
    by (simp_all add: example_version_def)
  have fp: "file_pusher (example_coordinator ''READY'') = []"
    by (simp add: example_coordinator_def)
  from save_unexpected_state
         [OF example_create_artifact example_json_dumps example_create_artifact_version]
       example_create_artifact example_json_dumps example_create_artifact_version st fp
  show ?thesis by simp
qed

text \<open>
  C4, amended: on every coordinator on which \<^verbatim>\<open>save\<close> has not been called, as
  the constructor returns it, \<^verbatim>\<open>wait\<close> fails with the exception
  \<^verbatim>\<open>Must call save first\<close>.
\<close>

theorem wait_before_save:
  assumes "LocalArtifact_init e a r ps md pusher user_created = Inr self"
  shows "wait self = Some (Inl NotSavedError)"
  using assms by (auto simp: LocalArtifact_init_def wait_def split: sum.splits)

text \<open>The coordinator of the example, as constructed.\<close>

theorem wait_before_save_witness:
  "LocalArtifact_init example_env (example_api ''PENDING'') 0 example_paths JNull None False
     = Inr (example_coordinator ''PENDING'')
   \<and> wait (example_coordinator ''PENDING'') = Some (Inl NotSavedError)"
proof -
  have h: "LocalArtifact_init example_env (example_api ''PENDING'') 0 example_paths JNull None
             False = Inr (example_coordinator ''PENDING'')"
    using example_artifact_built [of "''PENDING''"] by (simp add: example_artifact_def)
  from wait_before_save [OF h] h show ?thesis by simp
qed

text \<open>
  As the specification states it, for every coordinator on which no \<^emph>\<open>successful\<close>
  \<^verbatim>\<open>save\<close> has been performed, the property fails: \<^verbatim>\<open>save\<close> stores the
  version before it looks at its state. When the remote answers \<^verbatim>\<open>READY\<close>,
  \<^verbatim>\<open>save\<close> raises, and \<^verbatim>\<open>wait\<close> on that coordinator returns at once, without
  an exception.
\<close>

theorem wait_after_failed_save_counterexample:
  "example_artifact ''READY'' = Inr (example_coordinator ''READY'')
   \<and> snd (save (example_coordinator ''READY'') ''run'') = Inl UnexpectedStateError
   \<and> wait (fst (save (example_coordinator ''READY'') ''run'')) = Some (Inr 0)
   \<and> wait (fst (save (example_coordinator ''READY'') ''run'')) \<noteq> Some (Inl NotSavedError)"
proof -
  have s: "save (example_coordinator ''READY'') ''run''
       = ((example_coordinator ''READY'')
            \<lparr>remote := Suc (Suc 0), server_artifact := Some (example_version ''READY'')\<rparr>,
          Inl UnexpectedStateError)"
    by (rule example_save_state) simp_all
  have w: "wait (fst (save (example_coordinator ''READY'') ''run'')) = Some (Inr 0)"
    unfolding s by (rule wait_ready [where v = "example_version ''READY''"])
      (simp_all add: example_version_def)
  from s w example_artifact_built [of "''READY''"] show ?thesis by simp
qed

text \<open>
  C5, amended: a list in which two elements share a basename fails with the exception of
  duplicate names; a mapping that is not empty is passed through unchanged as the path
  spec, so two files of the same basename succeed when given as a mapping under distinct
  logical paths.
\<close>

theorem duplicate_basenames_and_mappings:
  "(\<not> distinct (map basename xs)
      \<longrightarrow> user_paths_to_path_specs e (PathList xs) = Inl DuplicateNameError)
   \<and> (d \<noteq> [] \<longrightarrow> user_paths_to_path_specs e (PathDict d) = Inr d)"
  by (auto simp: user_paths_to_path_specs_def list_path_specs_duplicate)

text \<open>Two files named \<^verbatim>\<open>a.txt\<close>, as a list and as a mapping.\<close>

theorem duplicate_basenames_and_mappings_witness:
  "\<not> distinct (map basename [''/data/a.txt'', ''/other/a.txt''])
   \<and> user_paths_to_path_specs example_env (PathList [''/data/a.txt'', ''/other/a.txt''])
       = Inl DuplicateNameError
   \<and> [(''x/a.txt'', ''/data/a.txt''), (''y/a.txt'', ''/other/a.txt'')] \<noteq> []
   \<and> user_paths_to_path_specs example_env
        (PathDict [(''x/a.txt'', ''/data/a.txt''), (''y/a.txt'', ''/other/a.txt'')])
       = Inr [(''x/a.txt'', ''/data/a.txt''), (''y/a.txt'', ''/other/a.txt'')]"
proof -
  have h: "\<not> distinct (map basename [''/data/a.txt'', ''/other/a.txt''])"
    by (simp add: basename_def)
  have n: "[(''x/a.txt'', ''/data/a.txt''), (''y/a.txt'', ''/other/a.txt'')] \<noteq> []" by simp
  from duplicate_basenames_and_mappings
    [of "[''/data/a.txt'', ''/other/a.txt'']" example_env
        "[(''x/a.txt'', ''/data/a.txt''), (''y/a.txt'', ''/other/a.txt'')]"] h n
  show ?thesis by blast
qed

text \<open>
  As the specification states it, for every mapping, the property fails at the empty
  mapping, which is refused with \<^verbatim>\<open>At least one valid path must be specified.\<close>
\<close>

theorem empty_mapping_counterexample:
  "user_paths_to_path_specs example_env (PathDict []) = Inl NoPathsError
   \<and> user_paths_to_path_specs example_env (PathDict []) \<noteq> Inr []"
  by (simp add: user_paths_to_path_specs_def)

text \<open>
  C6: when the metadata argument is given (it is not \<^verbatim>\<open>None\<close>) and the resolved
  path spec has the reserved logical path \<^verbatim>\<open>artifact-metadata.json\<close>, the
  construction of the manifest fails with the exception of ambiguous metadata, and there
  is no manifest.
\<close>

theorem ambiguous_metadata:
  assumes "user_paths_to_path_specs e ps = Inr path_specs"
    and "ARTIFACT_METADATA_FILENAME \<in> set (map fst path_specs)"
    and "md \<noteq> JNull"
  shows "LocalArtifactManifestV1_init e ps md = Inl AmbiguousMetadataError"
  using assms by (simp add: LocalArtifactManifestV1_init_def resolve_metadata_def)

text \<open>The metadata file of the example next to a metadata argument.\<close>

theorem ambiguous_metadata_witness:
  "user_paths_to_path_specs example_env example_paths_with_metadata
     = Inr [(''artifact-metadata.json'', ''/data/artifact-metadata.json''),
            (''a.txt'', ''/data/a.txt'')]
   \<and> ARTIFACT_METADATA_FILENAME
       \<in> set (map fst [(''artifact-metadata.json'', ''/data/artifact-metadata.json''),
                        (''a.txt'', ''/data/a.txt'')])
   \<and> JDict [(''k'', JInt 2)] \<noteq> JNull
   \<and> LocalArtifactManifestV1_init example_env example_paths_with_metadata
        (JDict [(''k'', JInt 2)]) = Inl AmbiguousMetadataError"
proof -
  have p: "user_paths_to_path_specs example_env example_paths_with_metadata
     = Inr [(''artifact-metadata.json'', ''/data/artifact-metadata.json''),
            (''a.txt'', ''/data/a.txt'')]"
    by (simp add: user_paths_to_path_specs_def example_paths_with_metadata_def)
  have k: "ARTIFACT_METADATA_FILENAME
       \<in> set (map fst [(''artifact-metadata.json'', ''/data/artifact-metadata.json''),
                        (''a.txt'', ''/data/a.txt'')])"
    by (simp add: ARTIFACT_METADATA_FILENAME_def)
  have n: "JDict [(''k'', JInt 2)] \<noteq> JNull" by simp
  from ambiguous_metadata [OF p k n] p k n show ?thesis by simp
qed

text \<open>
  C7: when the resolved path spec has the reserved logical path and no metadata argument
  is given, a manifest that is constructed has that path removed from its path specs, its
  metadata is the document loaded from the file under that path, its first entry has the
  reserved logical path, the digest of that document as hash and no local path, and the
  entries after it are those of the remaining path specs: none of them has the reserved
  logical path and each has a local path.
\<close>

theorem reserved_path_becomes_metadata:
  assumes ps: "user_paths_to_path_specs e ps = Inr path_specs"
    and mem: "ARTIFACT_METADATA_FILENAME \<in> set (map fst path_specs)"
    and ok: "LocalArtifactManifestV1_init e ps JNull = Inr m"
  shows "\<exists>lp d h fes.
           map_of path_specs ARTIFACT_METADATA_FILENAME = Some lp
         \<and> ArtifactMetadata_from_file e lp = Inr d
         \<and> m_metadata m = Some d
         \<and> m_path_specs m = AList.delete ARTIFACT_METADATA_FILENAME path_specs
         \<and> ArtifactMetadata_digest e d = Inr h
         \<and> entries m = \<lparr>path = ARTIFACT_METADATA_FILENAME, hash = h, local_path = None\<rparr> # fes
         \<and> map path fes = map fst (AList.delete ARTIFACT_METADATA_FILENAME path_specs)
         \<and> (\<forall>entry \<in> set fes. path entry \<noteq> ARTIFACT_METADATA_FILENAME
                                 \<and> local_path entry \<noteq> None)"
proof -
  from ok ps mem obtain lp d where lp: "map_of path_specs ARTIFACT_METADATA_FILENAME = Some lp"
    and d: "ArtifactMetadata_from_file e lp = Inr d"
    by (auto simp: LocalArtifactManifestV1_init_def resolve_metadata_def
             split: sum.splits option.splits)
  let ?rest = "AList.delete ARTIFACT_METADATA_FILENAME path_specs"
  from ps mem lp d have r: "resolve_metadata e path_specs JNull = Inr (?rest, Some d)"
    by (simp add: resolve_metadata_def)
  from ok ps r obtain h fes where h: "ArtifactMetadata_digest e d = Inr h"
    and fes: "file_entries e ?rest = Inr fes"
    and m: "m = \<lparr>m_path_specs = ?rest, m_metadata = Some d,
                 m_local_entries = \<lparr>path = ARTIFACT_METADATA_FILENAME, hash = h,
                                     local_path = None\<rparr> # fes,
                 m_digest = manifest_digest e (\<lparr>path = ARTIFACT_METADATA_FILENAME, hash = h,
                                     local_path = None\<rparr> # fes)\<rparr>"
    by (auto simp: LocalArtifactManifestV1_init_def metadata_entries_def split: sum.splits)
  from file_entries_Inr [OF fes]
  have shape: "fes = map (\<lambda>kv. \<lparr>path = fst kv, hash = md5 e (the (read_file e (snd kv))),
                         local_path = Some (abspath e (snd kv))\<rparr>) ?rest" by simp
  have paths: "map path fes = map fst ?rest" unfolding shape by simp
  have "ARTIFACT_METADATA_FILENAME \<notin> set (map fst ?rest)"
    by (simp add: delete_keys)
  then have none: "\<forall>entry \<in> set fes. path entry \<noteq> ARTIFACT_METADATA_FILENAME"
    unfolding paths [symmetric] by (metis image_eqI set_map)
  have some: "\<forall>entry \<in> set fes. local_path entry \<noteq> None"
    unfolding shape by auto
  from lp d h m paths none some show ?thesis by (simp add: entries_def)
qed

text \<open>The metadata file of the example and one plain file.\<close>

theorem reserved_path_becomes_metadata_witness:
  "\<exists>m. user_paths_to_path_specs example_env example_paths_with_metadata
         = Inr [(''artifact-metadata.json'', ''/data/artifact-metadata.json''),
                (''a.txt'', ''/data/a.txt'')]
     \<and> ARTIFACT_METADATA_FILENAME
          \<in> set (map fst [(''artifact-metadata.json'', ''/data/artifact-metadata.json''),
                           (''a.txt'', ''/data/a.txt'')])
     \<and> LocalArtifactManifestV1_init example_env example_paths_with_metadata JNull = Inr m
     \<and> m_metadata m = Some (JDict [(''k'', JInt 1)])
     \<and> m_path_specs m = [(''a.txt'', ''/data/a.txt'')]
     \<and> map path (entries m) = [ARTIFACT_METADATA_FILENAME, ''a.txt'']
     \<and> map local_path (entries m) = [None, Some ''/data/a.txt'']"
proof -
  have p: "user_paths_to_path_specs example_env example_paths_with_metadata
     = Inr [(''artifact-metadata.json'', ''/data/artifact-metadata.json''),
            (''a.txt'', ''/data/a.txt'')]"
    by (simp add: user_paths_to_path_specs_def example_paths_with_metadata_def)
  have k: "ARTIFACT_METADATA_FILENAME
       \<in> set (map fst [(''artifact-metadata.json'', ''/data/artifact-metadata.json''),
                        (''a.txt'', ''/data/a.txt'')])"
    by (simp add: ARTIFACT_METADATA_FILENAME_def)
  from example_metadata_manifest obtain m
    where m: "LocalArtifactManifestV1_init example_env example_paths_with_metadata JNull = Inr m"
    by blast
  from reserved_path_becomes_metadata [OF p k m] obtain lp d h fes where
    lp: "map_of [(''artifact-metadata.json'', ''/data/artifact-metadata.json''),
                 (''a.txt'', ''/data/a.txt'')] ARTIFACT_METADATA_FILENAME = Some lp"
    and d: "ArtifactMetadata_from_file example_env lp = Inr d"
    and md: "m_metadata m = Some d"
    and ps: "m_path_specs m = AList.delete ARTIFACT_METADATA_FILENAME
               [(''artifact-metadata.json'', ''/data/artifact-metadata.json''),
                (''a.txt'', ''/data/a.txt'')]"
    and es: "entries m = \<lparr>path = ARTIFACT_METADATA_FILENAME, hash = h, local_path = None\<rparr> # fes"
    and pf: "map path fes = map fst (AList.delete ARTIFACT_METADATA_FILENAME
               [(''artifact-metadata.json'', ''/data/artifact-metadata.json''),
                (''a.txt'', ''/data/a.txt'')])"
    by blast
  have lp': "lp = ''/data/artifact-metadata.json''"
    using lp by (simp add: ARTIFACT_METADATA_FILENAME_def)
  have d': "d = JDict [(''k'', JInt 1)]"
    using d unfolding lp' by (simp add: ArtifactMetadata_from_file_def example_env_def)
  have ps': "m_path_specs m = [(''a.txt'', ''/data/a.txt'')]"
    using ps by (simp add: ARTIFACT_METADATA_FILENAME_def)
  have pf': "map path fes = [''a.txt'']"
    using pf by (simp add: ARTIFACT_METADATA_FILENAME_def)
  have lps: "map local_path (entries m) = [None, Some ''/data/a.txt'']"
    using m
    by (auto simp: LocalArtifactManifestV1_init_def user_paths_to_path_specs_def
      example_paths_with_metadata_def resolve_metadata_def ARTIFACT_METADATA_FILENAME_def
      ArtifactMetadata_from_file_def metadata_entries_def ArtifactMetadata_digest_def
      ArtifactMetadata_dump_def json_dump_opts_def dict_items_def entries_def
      hash_file_def example_env_def)
  from p k m md d' ps' es pf' lps show ?thesis by auto
qed

text \<open>
  C8: \<^verbatim>\<open>ArtifactMetadata.dump\<close> writes the same text for two values that are the
  same logical document, whatever the order in which the keys of their objects were
  inserted; and it fails with the exception of an out-of-range float on every document
  that has a non-finite float.
\<close>

theorem canonical_serialization:
  "(same_doc a b \<longrightarrow> ArtifactMetadata_dump a = ArtifactMetadata_dump b)
   \<and> (has_nonfinite d \<longrightarrow>
        (\<exists>f. \<not> is_finite f \<and> ArtifactMetadata_dump d = Inl (SerializationError f)))"
proof (intro conjI impI)
  assume "same_doc a b"
  then show "ArtifactMetadata_dump a = ArtifactMetadata_dump b"
    unfolding ArtifactMetadata_dump_def
    by (rule iterencode_same_doc) (simp add: json_dump_opts_def)
next
  assume nf: "has_nonfinite d"
  have "\<not> allow_nan json_dump_opts" by (simp add: json_dump_opts_def)
  from iterencode_nonfinite [OF nf this] obtain e where e: "ArtifactMetadata_dump d = Inl e"
    unfolding ArtifactMetadata_dump_def by blast
  with dump_error [OF e]
  show "\<exists>f. \<not> is_finite f \<and> ArtifactMetadata_dump d = Inl (SerializationError f)" by blast
qed

text \<open>A nested document with its keys in two orders, and a document with a NaN.\<close>

theorem canonical_serialization_witness:
  "same_doc (JDict [(''b'', JInt 1), (''a'', JList [JStr ''x'', JDict [(''z'', JNull), (''y'', JBool True)]])])
            (JDict [(''a'', JList [JStr ''x'', JDict [(''y'', JBool True), (''z'', JNull)]]), (''b'', JInt 1)])
   \<and> ArtifactMetadata_dump (JDict [(''b'', JInt 1), (''a'', JList [JStr ''x'', JDict [(''z'', JNull), (''y'', JBool True)]])])
       = ArtifactMetadata_dump (JDict [(''a'', JList [JStr ''x'', JDict [(''y'', JBool True), (''z'', JNull)]]), (''b'', JInt 1)])
   \<and> has_nonfinite (JDict [(''loss'', JList [JFloat (Finite ''0.5''), JFloat NaN])])
   \<and> (\<exists>f. \<not> is_finite f
          \<and> ArtifactMetadata_dump (JDict [(''loss'', JList [JFloat (Finite ''0.5''), JFloat NaN])])
              = Inl (SerializationError f))"
proof -
  have s: "same_doc (JDict [(''b'', JInt 1), (''a'', JList [JStr ''x'', JDict [(''z'', JNull), (''y'', JBool True)]])])
            (JDict [(''a'', JList [JStr ''x'', JDict [(''y'', JBool True), (''z'', JNull)]]), (''b'', JInt 1)])"
    by auto
  have n: "has_nonfinite (JDict [(''loss'', JList [JFloat (Finite ''0.5''), JFloat NaN])])"
    by simp
  from canonical_serialization
    [of "JDict [(''b'', JInt 1), (''a'', JList [JStr ''x'', JDict [(''z'', JNull), (''y'', JBool True)]])]"
        "JDict [(''a'', JList [JStr ''x'', JDict [(''y'', JBool True), (''z'', JNull)]]), (''b'', JInt 1)]"
        "JDict [(''loss'', JList [JFloat (Finite ''0.5''), JFloat NaN])]"] s n
  show ?thesis by blast
qed

text \<open>
  C9, against the digest modelled from the specification (the module that computes it is
  not among the sources): a manifest built from a mapping and the manifest built from
  the same pairs in any other order have the same digest, and the same entries up to
  their order.
\<close>

theorem digest_order_independent:
  assumes spec: "manifest_digest e = ArtifactManifestV1_digest (md5 e)"
    and dist: "distinct (map fst d)"
    and perm: "mset d' = mset d"
    and ok: "LocalArtifactManifestV1_init e (PathDict d) md = Inr m"
  shows "\<exists>m'. LocalArtifactManifestV1_init e (PathDict d') md = Inr m'
              \<and> digest m' = digest m
              \<and> mset (entries m') = mset (entries m)"
proof -
  let ?mk = "\<lambda>kv. \<lparr>path = fst kv, hash = md5 e (the (read_file e (snd kv))),
                     local_path = Some (abspath e (snd kv))\<rparr>"
  from ok have ne: "d \<noteq> []"
    by (auto simp: LocalArtifactManifestV1_init_def user_paths_to_path_specs_def)
  then have ne': "d' \<noteq> []" using perm by auto
  from ok ne obtain ps mo mes fes where r: "resolve_metadata e d md = Inr (ps, mo)"
    and me: "metadata_entries e mo = Inr mes"
    and fe: "file_entries e ps = Inr fes"
    and m: "entries m = mes @ fes" "digest m = manifest_digest e (mes @ fes)"
    by (auto simp: LocalArtifactManifestV1_init_def user_paths_to_path_specs_def
                   entries_def digest_def split: sum.splits)
  from resolve_metadata_permutation [OF perm dist r] obtain ps'
    where r': "resolve_metadata e d' md = Inr (ps', mo)" and pp: "mset ps' = mset ps" by blast
  from file_entries_Inr [OF fe] have rd: "\<forall>kv \<in> set ps. read_file e (snd kv) \<noteq> None"
    and fes: "fes = map ?mk ps" by simp_all
  have "set ps' = set ps" using pp by (rule mset_eq_setD)
  with rd have "\<forall>kv \<in> set ps'. read_file e (snd kv) \<noteq> None" by simp
  then have fe': "file_entries e ps' = Inr (map ?mk ps')" by (rule file_entries_readable)
  let ?m' = "\<lparr>m_path_specs = ps', m_metadata = mo, m_local_entries = mes @ map ?mk ps',
               m_digest = manifest_digest e (mes @ map ?mk ps')\<rparr>"
  have init': "LocalArtifactManifestV1_init e (PathDict d') md = Inr ?m'"
    using ne' r' me fe'
    by (simp add: LocalArtifactManifestV1_init_def user_paths_to_path_specs_def)
  have ms: "mset (mes @ map ?mk ps') = mset (mes @ fes)"
    unfolding fes using pp by simp
  from resolve_metadata_distinct [OF dist r] have dps: "distinct (map fst ps)"
    and nomd: "mo \<noteq> None \<longrightarrow> ARTIFACT_METADATA_FILENAME \<notin> set (map fst ps)" by simp_all
  have pf: "map path fes = map fst ps" unfolding fes by simp
  have "distinct (map path (mes @ fes))"
  proof (cases mo)
    case None
    with me have "mes = []" by (simp add: metadata_entries_def)
    with dps pf show ?thesis by simp
  next
    case (Some doc)
    with me obtain h where "mes = [\<lparr>path = ARTIFACT_METADATA_FILENAME, hash = h,
                                    local_path = None\<rparr>]"
      by (auto simp: metadata_entries_def split: sum.splits)
    with dps pf nomd Some show ?thesis by simp
  qed
  then have "ArtifactManifestV1_digest (md5 e) (mes @ fes)
                  = ArtifactManifestV1_digest (md5 e) (mes @ map ?mk ps')"
    by (rule digest_permutation [OF ms [symmetric]])
  with spec m ms init' show ?thesis by (simp add: digest_def entries_def)
qed

text \<open>The two files of the example, in both orders.\<close>

theorem digest_order_independent_witness:
  "manifest_digest example_env = ArtifactManifestV1_digest (md5 example_env)
   \<and> distinct (map fst [(''a.txt'', ''/data/a.txt''), (''b.txt'', ''/data/b.txt'')])
   \<and> mset [(''b.txt'', ''/data/b.txt''), (''a.txt'', ''/data/a.txt'')]
       = mset [(''a.txt'', ''/data/a.txt''), (''b.txt'', ''/data/b.txt'')]
   \<and> LocalArtifactManifestV1_init example_env
        (PathDict [(''a.txt'', ''/data/a.txt''), (''b.txt'', ''/data/b.txt'')]) JNull
       = Inr example_manifest
   \<and> (\<exists>m'. LocalArtifactManifestV1_init example_env
               (PathDict [(''b.txt'', ''/data/b.txt''), (''a.txt'', ''/data/a.txt'')]) JNull
              = Inr m'
            \<and> digest m' = digest example_manifest
            \<and> mset (entries m') = mset (entries example_manifest))"
proof -
  have spec: "manifest_digest example_env = ArtifactManifestV1_digest (md5 example_env)"
    by (simp add: example_env_def)
  have dist: "distinct (map fst [(''a.txt'', ''/data/a.txt''), (''b.txt'', ''/data/b.txt'')])"
    by simp
  have perm: "mset [(''b.txt'', ''/data/b.txt''), (''a.txt'', ''/data/a.txt'')]
       = mset [(''a.txt'', ''/data/a.txt''), (''b.txt'', ''/data/b.txt'')]"
    by simp
  have ok: "LocalArtifactManifestV1_init example_env
        (PathDict [(''a.txt'', ''/data/a.txt''), (''b.txt'', ''/data/b.txt'')]) JNull
       = Inr example_manifest"
    by (simp add: example_manifest_def
      LocalArtifactManifestV1_init_def user_paths_to_path_specs_def
      resolve_metadata_def ARTIFACT_METADATA_FILENAME_def
      metadata_entries_def hash_file_def example_env_def example_md5_def)
  from digest_order_independent [OF spec dist perm ok] spec dist perm ok
  show ?thesis by blast
qed

text \<open>
  C10: on every \<^verbatim>\<open>LocalArtifactRead\<close> that was constructed, reading the property
  \<^verbatim>\<open>digest\<close> raises \<^verbatim>\<open>TypeError\<close> and does not return the digest of the
  manifest: the property calls the digest, a string.
\<close>

theorem read_digest_raises:
  assumes "LocalArtifactRead_init e name p = Inr self"
  shows "LocalArtifactRead_digest self = Inl (TypeError ''str object is not callable'')
         \<and> LocalArtifactRead_digest self \<noteq> Inr (PyStr (digest (read_manifest self)))"
  by (simp add: LocalArtifactRead_digest_def)

text \<open>A reader over the directory of the example.\<close>

theorem read_digest_raises_witness:
  "\<exists>r. LocalArtifactRead_init example_env ''reader'' (PathSingle ''/data'') = Inr r
     \<and> LocalArtifactRead_digest r = Inl (TypeError ''str object is not callable'')
     \<and> LocalArtifactRead_digest r \<noteq> Inr (PyStr (digest (read_manifest r)))"
proof -
  have "\<exists>r. LocalArtifactRead_init example_env ''reader'' (PathSingle ''/data'') = Inr r"
    by (simp add: LocalArtifactRead_init_def LocalArtifactManifestV1_init_def
      user_paths_to_path_specs_def walk_path_specs_def path_join_def
      resolve_metadata_def ARTIFACT_METADATA_FILENAME_def
      metadata_entries_def hash_file_def example_env_def)
  then obtain r
    where r: "LocalArtifactRead_init example_env ''reader'' (PathSingle ''/data'') = Inr r" ..
  from read_digest_raises [OF r] r show ?thesis by blast
qed

end
